theory Spec2Isabelle
  imports Main
begin

section \<open>Python values used by the two apps\<close>

text \<open>
  A Python \<open>str\<close> is a sequence of Unicode code points and \<open>len\<close> counts code points,
  so a string is a list of code-point numbers. \<open>ascii\<close> turns an ASCII literal into
  such a list.
\<close>

type_synonym codepoint = nat
type_synonym pystr = "codepoint list"

definition ascii :: "string \<Rightarrow> pystr" where
  "ascii s = map of_char s"

text \<open>
  \<open>str.strip()\<close> without arguments removes leading and trailing characters for which
  \<open>str.isspace\<close> holds: the code points below.
\<close>

definition isspace :: "codepoint \<Rightarrow> bool" where
  "isspace c \<longleftrightarrow>
     (9 \<le> c \<and> c \<le> 13) \<or> (28 \<le> c \<and> c \<le> 32) \<or> c = 133 \<or> c = 160 \<or> c = 5760 \<or>
     (8192 \<le> c \<and> c \<le> 8202) \<or> c = 8232 \<or> c = 8233 \<or> c = 8239 \<or> c = 8287 \<or> c = 12288"

definition strip :: "pystr \<Rightarrow> pystr" where
  "strip s = rev (dropWhile isspace (rev (dropWhile isspace s)))"

text \<open>
  Slicing \<open>s[a:b]\<close> with integer bounds never raises: a negative bound counts from the
  end, and every bound is then clamped into \<open>0..len(s)\<close>; the slice is empty when the
  adjusted lower bound is not below the upper one.
\<close>

definition adjust :: "int \<Rightarrow> int \<Rightarrow> int" where
  "adjust n i = (if i < 0 then max (i + n) 0 else min i n)"

definition py_slice :: "'a list \<Rightarrow> int \<Rightarrow> int \<Rightarrow> 'a list" where
  "py_slice s a b =
     (let n = int (length s); lo = adjust n a; hi = adjust n b
      in if lo < hi then take (nat (hi - lo)) (drop (nat lo) s) else [])"

definition py_slice_from :: "'a list \<Rightarrow> int \<Rightarrow> 'a list" where
  "py_slice_from s a = drop (nat (adjust (int (length s)) a)) s"

text \<open>
  An instance of \<open>Exception\<close> is given by its \<open>str(e)\<close>, which is all the handlers
  use. What a call raises is such an instance, or an instance of another subclass of
  \<open>BaseException\<close>: \<open>KeyboardInterrupt\<close>, \<open>SystemExit\<close>, or any other one, given by
  its class name. Only the former is caught by \<open>except Exception\<close>.
\<close>

datatype py_exception = PyException (exc_str: pystr)

datatype py_raised =
    Exception py_exception
  | KeyboardInterrupt
  | SystemExit
  | OtherBaseException pystr

fun is_Exception :: "py_raised \<Rightarrow> bool" where
  "is_Exception (Exception e) = True"
| "is_Exception KeyboardInterrupt = False"
| "is_Exception SystemExit = False"
| "is_Exception (OtherBaseException name) = False"

definition IndexError :: py_exception where
  "IndexError = PyException (ascii ''list index out of range'')"

section \<open>The pipelines (external collaborators)\<close>

text \<open>
  The summarization pipeline is called as \<open>summarizer(text, max_length=.., min_length=..,
  do_sample=False)\<close> and returns a list of records with the key \<open>summary_text\<close>, or raises.
  The NER pipeline (aggregation strategy \<open>simple\<close>) is called on the summary and returns
  a list of records of which the code reads \<open>start\<close>, \<open>end\<close> and \<open>entity_group\<close>.
\<close>

record summary =
  summary_text :: pystr

record entity =
  start :: int
  end' :: int
  entity_group :: pystr

type_synonym summarization_pipeline = "pystr \<Rightarrow> int \<Rightarrow> int \<Rightarrow> py_raised + summary list"
type_synonym token_classification_pipeline = "pystr \<Rightarrow> py_raised + entity list"

text \<open>What a handler does besides returning: log lines and pipeline invocations, in order.\<close>

datatype event =
    LogInfo pystr
  | LogError pystr
  | SummarizerCall pystr int int
  | NerCall pystr

text \<open>\<open>xs[0]\<close>: raises \<open>IndexError\<close> on the empty list.\<close>

definition subscript0 :: "'a list \<Rightarrow> py_raised + 'a" where
  "subscript0 xs = (case xs of [] \<Rightarrow> Inl (Exception IndexError) | x # _ \<Rightarrow> Inr x)"

section \<open>The span annotator (text-summarizer-ner/app.py, lines 102--116)\<close>

text \<open>
  A segment is the tuple \<open>(text, label)\<close> appended to \<open>formatted_output\<close>; the label
  is \<open>None\<close> for text outside every entity.
\<close>

type_synonym segment = "pystr \<times> pystr option"

text \<open>
  The \<open>for entity in ner_res\<close> loop, with its two variables \<open>cursor\<close> and
  \<open>formatted_output\<close> passed along.
\<close>

fun stitch :: "pystr \<Rightarrow> entity list \<Rightarrow> int \<Rightarrow> segment list \<Rightarrow> int \<times> segment list" where
  "stitch text [] cursor formatted_output = (cursor, formatted_output)"
| "stitch text (entity # rest) cursor formatted_output =
     stitch text rest (end' entity)
       ((if start entity > cursor
         then formatted_output @ [(py_slice text cursor (start entity), None)]
         else formatted_output)
        @ [(py_slice text (start entity) (end' entity), Some (entity_group entity))])"

definition annotate :: "pystr \<Rightarrow> entity list \<Rightarrow> segment list" where
  "annotate text ner_res =
     (case stitch text ner_res 0 [] of
        (cursor, formatted_output) \<Rightarrow>
          if cursor < int (length text)
          then formatted_output @ [(py_slice_from text cursor, None)]
          else formatted_output)"

text \<open>
  Well-formed span sequences, as the specification words them: every span in bounds
  with \<open>0 \<le> start < end \<le> len(text)\<close>, sorted ascending by start, and each span
  ending no later than the next one starts.
\<close>

definition in_bounds :: "pystr \<Rightarrow> entity \<Rightarrow> bool" where
  "in_bounds text e \<longleftrightarrow> 0 \<le> start e \<and> start e < end' e \<and> end' e \<le> int (length text)"

fun non_overlapping :: "entity list \<Rightarrow> bool" where
  "non_overlapping [] = True"
| "non_overlapping [e] = True"
| "non_overlapping (e1 # e2 # es) = (end' e1 \<le> start e2 \<and> non_overlapping (e2 # es))"

definition well_formed :: "pystr \<Rightarrow> entity list \<Rightarrow> bool" where
  "well_formed text spans \<longleftrightarrow>
     list_all (in_bounds text) spans \<and> sorted (map start spans) \<and> non_overlapping spans"

definition labeled :: "segment \<Rightarrow> bool" where
  "labeled seg \<longleftrightarrow> snd seg \<noteq> None"

text \<open>The tuple appended for an entity at line 111.\<close>

definition entity_segment :: "pystr \<Rightarrow> entity \<Rightarrow> segment" where
  "entity_segment text e = (py_slice text (start e) (end' e), Some (entity_group e))"

text \<open>
  The failure contract the specification asks of an annotator: a span is invalid when
  \<open>start < 0\<close>, \<open>end > len(text)\<close> or \<open>start > end\<close>.
\<close>

definition invalid_span :: "pystr \<Rightarrow> entity \<Rightarrow> bool" where
  "invalid_span text e \<longleftrightarrow> start e < 0 \<or> end' e > int (length text) \<or> start e > end' e"

section \<open>The single-model app (app.py)\<close>

text \<open>The string literals returned at lines 45, 48 and 51; the warning sign is U+26A0 U+FE0F.\<close>

definition warning_sign :: pystr where
  "warning_sign = [9888, 65039]"

definition msg_model_not_loaded :: pystr where
  "msg_model_not_loaded = ascii ''Error: Model not loaded correctly. Check logs.''"

definition msg_enter_text :: pystr where
  "msg_enter_text = warning_sign @ ascii '' Please enter some text to summarize.''"

definition msg_input_too_short :: pystr where
  "msg_input_too_short =
     warning_sign @ ascii '' Input text is too short. Please provide a longer paragraph.''"

text \<open>The body of the \<open>try\<close> block (lines 54--61), up to the first exception.\<close>

definition summarize_try :: "summarization_pipeline \<Rightarrow> pystr \<Rightarrow> int \<Rightarrow> int \<Rightarrow> py_raised + pystr" where
  "summarize_try model text max_len min_len =
     (case model text max_len min_len of
        Inl e \<Rightarrow> Inl e
      | Inr summary_list \<Rightarrow>
          (case subscript0 summary_list of
             Inl e \<Rightarrow> Inl e
           | Inr s \<Rightarrow> Inr (summary_text s)))"

text \<open>
  \<open>summarize_text\<close>, with the module's global \<open>summarizer\<close> (\<open>None\<close> when loading
  failed) as its first argument. The outcome of a call is the returned string (\<open>Inr\<close>)
  or the exception that leaves the function (\<open>Inl\<close>), with the events of the call.
  The handler at line 62 is \<open>except Exception\<close>: what the \<open>try\<close> block raises outside
  \<open>Exception\<close> is not handled and leaves the function.
\<close>

definition summarize_text ::
  "summarization_pipeline option \<Rightarrow> pystr \<Rightarrow> int \<Rightarrow> int \<Rightarrow>
     (py_raised + pystr) \<times> event list" where
  "summarize_text loaded text max_len min_len =
     (case loaded of
        None \<Rightarrow> (Inr msg_model_not_loaded, [])
      | Some model \<Rightarrow>
          if text = [] \<or> strip text = [] then (Inr msg_enter_text, [])
          else if length text < 50 then (Inr msg_input_too_short, [])
          else
            (case summarize_try model text max_len min_len of
               Inr result \<Rightarrow>
                 (Inr result,
                  [LogInfo (ascii ''Processing summary request...''),
                   SummarizerCall text max_len min_len])
             | Inl raised \<Rightarrow>
                 (case raised of
                    Exception e \<Rightarrow>
                      (Inr (ascii ''An error occurred: '' @ exc_str e),
                       [LogInfo (ascii ''Processing summary request...''),
                        SummarizerCall text max_len min_len,
                        LogError (ascii ''Summarization error: '' @ exc_str e)])
                  | _ \<Rightarrow>
                      (Inl raised,
                       [LogInfo (ascii ''Processing summary request...''),
                        SummarizerCall text max_len min_len]))))"

section \<open>The summarizer with entity recognition (text-summarizer-ner/app.py)\<close>

record text_processor =
  summarizer :: "summarization_pipeline option"
  ner_pipeline :: "token_classification_pipeline option"

text \<open>The string literals returned at lines 82 and 85.\<close>

definition msg_models_not_initialized :: pystr where
  "msg_models_not_initialized = warning_sign @ ascii '' Error: Models not initialized. See logs.''"

definition msg_text_too_short :: pystr where
  "msg_text_too_short =
     warning_sign @ ascii '' Text too short. Please provide at least 50 characters.''"

text \<open>
  The body of the \<open>try\<close> block (lines 88--118): the result or the first exception,
  with the pipeline invocations made until then.
\<close>

definition process_try ::
  "summarization_pipeline \<Rightarrow> token_classification_pipeline \<Rightarrow> pystr \<Rightarrow> int \<Rightarrow> int \<Rightarrow>
     (py_raised + pystr \<times> segment list) \<times> event list" where
  "process_try summ ner text max_len min_len =
     (case summ text max_len min_len of
        Inl e \<Rightarrow> (Inl e, [SummarizerCall text max_len min_len])
      | Inr summary_res \<Rightarrow>
          (case subscript0 summary_res of
             Inl e \<Rightarrow> (Inl e, [SummarizerCall text max_len min_len])
           | Inr s \<Rightarrow>
               (case ner (summary_text s) of
                  Inl e \<Rightarrow>
                    (Inl e, [SummarizerCall text max_len min_len, NerCall (summary_text s)])
                | Inr ner_res \<Rightarrow>
                    (Inr (summary_text s, annotate (summary_text s) ner_res),
                     [SummarizerCall text max_len min_len, NerCall (summary_text s)]))))"

text \<open>
  \<open>TextProcessor.process\<close>: the returned pair (\<open>Inr\<close>) or the exception that leaves
  the method (\<open>Inl\<close>), with the events of the call. The handler at line 120 is
  \<open>except Exception\<close>, as in the single-model app.
\<close>

definition process ::
  "text_processor \<Rightarrow> pystr \<Rightarrow> int \<Rightarrow> int \<Rightarrow>
     (py_raised + pystr \<times> segment list) \<times> event list" where
  "process self text max_len min_len =
     (case (summarizer self, ner_pipeline self) of
        (Some summ, Some ner) \<Rightarrow>
          if text = [] \<or> length (strip text) < 50 then (Inr (msg_text_too_short, []), [])
          else
            (case process_try summ ner text max_len min_len of
               (Inr result, events) \<Rightarrow> (Inr result, events)
             | (Inl raised, events) \<Rightarrow>
                 (case raised of
                    Exception e \<Rightarrow>
                      (Inr (ascii ''Error during processing: '' @ exc_str e, []),
                       events @ [LogError (ascii ''Inference Error: '' @ exc_str e)])
                  | _ \<Rightarrow> (Inl raised, events)))
      | _ \<Rightarrow> (Inr (msg_models_not_initialized, []), []))"

text \<open>
  Lines 102--116 once more, statement by statement, on the whole state a call of
  \<open>process\<close> can see when it reaches them: the object \<open>self\<close>, the log, the
  arguments, and the local variables. A statement that assigns to a variable or appends
  to the list it holds updates that field of the state.
\<close>

record call_state =
  v_self :: text_processor
  v_log :: "event list"
  v_text :: pystr
  v_max_len :: int
  v_min_len :: int
  v_summary_text :: pystr
  v_ner_res :: "entity list"
  v_cursor :: int
  v_formatted_output :: "segment list"

text \<open>Lines 102 and 103.\<close>

definition stitch_init :: "call_state \<Rightarrow> call_state" where
  "stitch_init s = s\<lparr>v_formatted_output := [], v_cursor := 0\<rparr>"

text \<open>The body of the loop, lines 107--112.\<close>

definition stitch_body :: "entity \<Rightarrow> call_state \<Rightarrow> call_state" where
  "stitch_body entity s =
     (let s1 = (if start entity > v_cursor s
                then s\<lparr>v_formatted_output := v_formatted_output s
                        @ [(py_slice (v_summary_text s) (v_cursor s) (start entity), None)]\<rparr>
                else s);
          s2 = s1\<lparr>v_formatted_output := v_formatted_output s1
                      @ [(py_slice (v_summary_text s1) (start entity) (end' entity),
                          Some (entity_group entity))]\<rparr>
      in s2\<lparr>v_cursor := end' entity\<rparr>)"

text \<open>Lines 115 and 116.\<close>

definition stitch_tail :: "call_state \<Rightarrow> call_state" where
  "stitch_tail s =
     (if v_cursor s < int (length (v_summary_text s))
      then s\<lparr>v_formatted_output := v_formatted_output s
                @ [(py_slice_from (v_summary_text s) (v_cursor s), None)]\<rparr>
      else s)"

text \<open>The block: initialisation, the loop over \<open>ner_res\<close>, the remaining text.\<close>

definition stitch_block :: "call_state \<Rightarrow> call_state" where
  "stitch_block s = stitch_tail (fold stitch_body (v_ner_res s) (stitch_init s))"

text \<open>Examples of the specification, used to instantiate the theorems below.\<close>

definition tom_met_jerry :: pystr where
  "tom_met_jerry = ascii ''Tom met Jerry''"

definition tom_met_jerry_spans :: "entity list" where
  "tom_met_jerry_spans =
     [\<lparr>start = 0, end' = 3, entity_group = ascii ''PER''\<rparr>,
      \<lparr>start = 8, end' = 13, entity_group = ascii ''PER''\<rparr>]"

definition hello_world :: pystr where
  "hello_world = ascii ''hello world''"

definition short_text :: pystr where
  "short_text = ascii ''short''"

definition short_span :: entity where
  "short_span = \<lparr>start = 0, end' = 10, entity_group = ascii ''X''\<rparr>"

text \<open>
  Stand-ins for the pipelines (one returning a summary, one raising an \<open>Exception\<close>,
  one interrupted from the keyboard, one returning no summary), processors built from
  them, and input texts: sixty
  spaces, ten letters \<open>x\<close>, sixty letters \<open>a\<close>, seventy letters \<open>b\<close>, and forty-five
  letters \<open>a\<close> followed by ten spaces.
\<close>

definition paris_is_big :: pystr where
  "paris_is_big = ascii ''Paris is big''"

definition paris_spans :: "entity list" where
  "paris_spans = [\<lparr>start = 0, end' = 5, entity_group = ascii ''LOC''\<rparr>]"

definition stub_summarizer :: summarization_pipeline where
  "stub_summarizer text max_len min_len = Inr [\<lparr>summary_text = paris_is_big\<rparr>]"

definition failing_summarizer :: summarization_pipeline where
  "failing_summarizer text max_len min_len = Inl (Exception (PyException (ascii ''out of memory'')))"

definition stub_ner :: token_classification_pipeline where
  "stub_ner text = Inr paris_spans"

definition stub_processor :: text_processor where
  "stub_processor = \<lparr>summarizer = Some stub_summarizer, ner_pipeline = Some stub_ner\<rparr>"

definition sixty_spaces :: pystr where
  "sixty_spaces = replicate 60 32"

definition ten_letters :: pystr where
  "ten_letters = replicate 10 120"

definition sixty_letters :: pystr where
  "sixty_letters = replicate 60 97"

definition padded_text :: pystr where
  "padded_text = replicate 45 97 @ replicate 10 32"

definition seventy_letters :: pystr where
  "seventy_letters = replicate 70 98"

definition interrupted_summarizer :: summarization_pipeline where
  "interrupted_summarizer text max_len min_len = Inl KeyboardInterrupt"

definition empty_summarizer :: summarization_pipeline where
  "empty_summarizer text max_len min_len = Inr []"

definition other_summarizer :: summarization_pipeline where
  "other_summarizer text max_len min_len =
     Inr [\<lparr>summary_text = paris_is_big\<rparr>, \<lparr>summary_text = text\<rparr>]"

definition unloaded_processor :: text_processor where
  "unloaded_processor = \<lparr>summarizer = None, ner_pipeline = Some stub_ner\<rparr>"

definition other_processor :: text_processor where
  "other_processor = \<lparr>summarizer = Some other_summarizer, ner_pipeline = Some stub_ner\<rparr>"

definition failing_processor :: text_processor where
  "failing_processor = \<lparr>summarizer = Some failing_summarizer, ner_pipeline = Some stub_ner\<rparr>"

text \<open>
  Two states that reach the stitching block with the same summary and spans, and differ
  in everything else.
\<close>

definition state_a :: call_state where
  "state_a =
     \<lparr>v_self = stub_processor, v_log = [], v_text = sixty_letters, v_max_len = 130,
      v_min_len = 30, v_summary_text = paris_is_big, v_ner_res = paris_spans, v_cursor = 0,
      v_formatted_output = []\<rparr>"

definition state_b :: call_state where
  "state_b =
     \<lparr>v_self = other_processor,
      v_log = [SummarizerCall seventy_letters 100 20, NerCall paris_is_big],
      v_text = seventy_letters, v_max_len = 100, v_min_len = 20,
      v_summary_text = paris_is_big, v_ner_res = paris_spans, v_cursor = 7,
      v_formatted_output = [(ascii ''stale'', None)]\<rparr>"

section \<open>Slicing inside the bounds\<close>

lemma adjust_id: "0 \<le> i \<Longrightarrow> i \<le> n \<Longrightarrow> adjust n i = i"
  by (simp add: adjust_def)

lemma py_slice_in_range:
  "0 \<le> a \<Longrightarrow> a \<le> b \<Longrightarrow> b \<le> int (length s) \<Longrightarrow>
   py_slice s a b = take (nat (b - a)) (drop (nat a) s)"
  by (simp add: py_slice_def adjust_id Let_def)

lemma py_slice_nonempty:
  "0 \<le> a \<Longrightarrow> a < b \<Longrightarrow> b \<le> int (length s) \<Longrightarrow> py_slice s a b \<noteq> []"
  by (simp add: py_slice_in_range)

lemma py_slice_append_drop:
  assumes "0 \<le> a" "a \<le> b" "b \<le> int (length s)"
  shows "py_slice s a b @ drop (nat b) s = drop (nat a) s"
proof -
  have "nat b = nat (b - a) + nat a" using assms by simp
  then have "drop (nat b) s = drop (nat (b - a)) (drop (nat a) s)"
    by (simp only: drop_drop)
  moreover have "py_slice s a b = take (nat (b - a)) (drop (nat a) s)"
    using assms by (rule py_slice_in_range)
  ultimately show ?thesis
    by (simp only: append_take_drop_id)
qed

lemma py_slice_from_in_range:
  "0 \<le> a \<Longrightarrow> a \<le> int (length s) \<Longrightarrow> py_slice_from s a = drop (nat a) s"
  by (simp add: py_slice_from_def adjust_id)

section \<open>The span annotator: labels and round trip\<close>

lemma stitch_labeled:
  "filter labeled (snd (stitch text es c out)) =
   filter labeled out @ map (entity_segment text) es"
  by (induction es arbitrary: c out) (simp_all add: labeled_def entity_segment_def)

lemma annotate_alt:
  "annotate text es =
     (if fst (stitch text es 0 []) < int (length text)
      then snd (stitch text es 0 []) @ [(py_slice_from text (fst (stitch text es 0 [])), None)]
      else snd (stitch text es 0 []))"
  by (simp add: annotate_def split: prod.splits)

lemma annotate_labeled:
  "filter labeled (annotate text es) = map (entity_segment text) es"
  by (simp add: annotate_alt stitch_labeled) (simp add: labeled_def)

lemma stitch_round_trip:
  assumes "0 \<le> c" "c \<le> int (length text)" "list_all (in_bounds text) es"
    "non_overlapping es" "es \<noteq> [] \<longrightarrow> c \<le> start (hd es)"
  shows "concat (map fst (snd (stitch text es c out))) @ drop (nat (fst (stitch text es c out))) text
           = concat (map fst out) @ drop (nat c) text
         \<and> 0 \<le> fst (stitch text es c out) \<and> fst (stitch text es c out) \<le> int (length text)"
  using assms
proof (induction es arbitrary: c out)
  case Nil
  then show ?case by simp
next
  case (Cons e es)
  have e: "0 \<le> start e" "start e < end' e" "end' e \<le> int (length text)" and ce: "c \<le> start e"
    using Cons.prems by (simp_all add: in_bounds_def)
  have nxt: "es \<noteq> [] \<longrightarrow> end' e \<le> start (hd es)" and no: "non_overlapping es"
    using Cons.prems(4) by (cases es; simp)+
  let ?out = "(if start e > c then out @ [(py_slice text c (start e), None)] else out)
        @ [(py_slice text (start e) (end' e), Some (entity_group e))]"
  have ih: "concat (map fst (snd (stitch text es (end' e) ?out))) @ drop (nat (fst (stitch text es (end' e) ?out))) text
           = concat (map fst ?out) @ drop (nat (end' e)) text
         \<and> 0 \<le> fst (stitch text es (end' e) ?out) \<and> fst (stitch text es (end' e) ?out) \<le> int (length text)"
    using Cons.IH [of "end' e" ?out] e nxt no Cons.prems(3) by simp
  have gap: "py_slice text c (start e) @ drop (nat (start e)) text = drop (nat c) text"
    using py_slice_append_drop [of c "start e" "text"] Cons.prems(1) ce e by simp
  have ent: "py_slice text (start e) (end' e) @ drop (nat (end' e)) text = drop (nat (start e)) text"
    using py_slice_append_drop [of "start e" "end' e" "text"] e by simp
  have "concat (map fst ?out) @ drop (nat (end' e)) text = concat (map fst out) @ drop (nat c) text"
  proof (cases "start e > c")
    case True
    then show ?thesis using gap ent by simp
  next
    case False
    then have "c = start e" using ce by simp
    then show ?thesis using ent by simp
  qed
  with ih show ?case by simp
qed

lemma well_formed_hd:
  "well_formed text es \<Longrightarrow> es \<noteq> [] \<longrightarrow> 0 \<le> start (hd es)"
  by (cases es) (simp_all add: well_formed_def in_bounds_def)

text \<open>
  C1 (round trip): for every text and every well-formed span sequence, the texts of the
  segments returned by the annotator, concatenated in order, are the original text.
\<close>

theorem annotate_round_trip:
  assumes "well_formed text spans"
  shows "concat (map fst (annotate text spans)) = text"
proof -
  let ?c = "fst (stitch text spans 0 [])" and ?out = "snd (stitch text spans 0 [])"
  have b: "list_all (in_bounds text) spans" and n: "non_overlapping spans"
    using assms by (simp_all add: well_formed_def)
  have h: "spans \<noteq> [] \<longrightarrow> 0 \<le> start (hd spans)"
    using assms by (rule well_formed_hd)
  have "concat (map fst ?out) @ drop (nat ?c) text = concat (map fst []) @ drop (nat 0) text
         \<and> 0 \<le> ?c \<and> ?c \<le> int (length text)"
    using stitch_round_trip [of 0 "text" spans "[]"] b n h by simp
  then have rt: "concat (map fst ?out) @ drop (nat ?c) text = text"
    and c: "0 \<le> ?c" "?c \<le> int (length text)"
    by simp_all
  show ?thesis
  proof (cases "?c < int (length text)")
    case True
    then show ?thesis using rt c by (simp add: annotate_alt py_slice_from_in_range)
  next
    case False
    then have "drop (nat ?c) text = []" using c by simp
    then show ?thesis using rt False by (simp add: annotate_alt)
  qed
qed

theorem annotate_round_trip_witness:
  "well_formed tom_met_jerry tom_met_jerry_spans \<and>
   concat (map fst (annotate tom_met_jerry tom_met_jerry_spans)) = tom_met_jerry"
proof -
  have h: "well_formed tom_met_jerry tom_met_jerry_spans"
    by (simp add: well_formed_def in_bounds_def tom_met_jerry_def tom_met_jerry_spans_def ascii_def)
  from annotate_round_trip [OF h] h show ?thesis by simp
qed

section \<open>The span annotator: offsets outside the text\<close>

text \<open>
  C2, as claimed: a span with an out-of-bounds offset makes the annotator fail with
  \<open>InvalidSpan\<close>. The code has no such check: on \<open>"short"\<close> with the span
  \<open>{0, 10, "X"}\<close>, which the failure contract calls invalid, it returns the single
  segment \<open>("short", "X")\<close>.
\<close>

theorem out_of_bounds_counterexample:
  "invalid_span short_text short_span \<and>
   annotate short_text [short_span] = [(short_text, Some (ascii ''X''))]"
  by (simp add: invalid_span_def short_text_def short_span_def annotate_def py_slice_def
      adjust_def ascii_def)

text \<open>
  C2, amended: for every text and every span sequence, whatever its offsets, the annotator
  returns segments, and the labeled ones are, in order, one per span, with the text of
  the Python slice \<open>text[start:end]\<close> (offsets clamped into the text, negative ones
  counted from its end, empty when the lower bound is not below the upper one).
\<close>

theorem annotate_never_rejects:
  "filter labeled (annotate text spans) =
     map (\<lambda>e. (py_slice text (start e) (end' e), Some (entity_group e))) spans"
  using annotate_labeled [of "text" spans] by (simp add: entity_segment_def)

section \<open>The span annotator: label fidelity\<close>

text \<open>
  C3 (label fidelity): for every text and every well-formed span sequence, there are as
  many labeled segments as spans, and the i-th labeled segment carries the label of the
  i-th span and the text \<open>text[start:end]\<close> of that span, which is the substring of
  length \<open>end - start\<close> at offset \<open>start\<close>.
\<close>

theorem annotate_label_fidelity:
  assumes "well_formed text spans"
  shows "length (filter labeled (annotate text spans)) = length spans \<and>
         (\<forall>i < length spans.
            filter labeled (annotate text spans) ! i =
              (py_slice text (start (spans ! i)) (end' (spans ! i)), Some (entity_group (spans ! i)))
            \<and> py_slice text (start (spans ! i)) (end' (spans ! i)) =
                take (nat (end' (spans ! i) - start (spans ! i))) (drop (nat (start (spans ! i))) text))"
proof -
  have b: "list_all (in_bounds text) spans"
    using assms by (simp add: well_formed_def)
  have "py_slice text (start (spans ! i)) (end' (spans ! i)) =
          take (nat (end' (spans ! i) - start (spans ! i))) (drop (nat (start (spans ! i))) text)"
    if "i < length spans" for i
  proof -
    have "in_bounds text (spans ! i)" using b that by (simp add: list_all_length)
    then show ?thesis by (simp add: in_bounds_def py_slice_in_range)
  qed
  then show ?thesis
    by (simp add: annotate_labeled entity_segment_def)
qed

theorem annotate_label_fidelity_witness:
  "well_formed tom_met_jerry tom_met_jerry_spans \<and>
   length (filter labeled (annotate tom_met_jerry tom_met_jerry_spans)) = 2 \<and>
   filter labeled (annotate tom_met_jerry tom_met_jerry_spans) ! 1
     = (ascii ''Jerry'', Some (ascii ''PER''))"
proof -
  have h: "well_formed tom_met_jerry tom_met_jerry_spans"
    by (simp add: well_formed_def in_bounds_def tom_met_jerry_def tom_met_jerry_spans_def ascii_def)
  have i: "(1::nat) < length tom_met_jerry_spans"
    by (simp add: tom_met_jerry_spans_def)
  note f = annotate_label_fidelity [OF h]
  have n: "length (filter labeled (annotate tom_met_jerry tom_met_jerry_spans)) = 2"
    using f by (simp add: tom_met_jerry_spans_def)
  have "filter labeled (annotate tom_met_jerry tom_met_jerry_spans) ! 1 =
          (py_slice tom_met_jerry (start (tom_met_jerry_spans ! 1)) (end' (tom_met_jerry_spans ! 1)),
           Some (entity_group (tom_met_jerry_spans ! 1)))"
    using f i by blast
  then have "filter labeled (annotate tom_met_jerry tom_met_jerry_spans) ! 1
     = (ascii ''Jerry'', Some (ascii ''PER''))"
    by (simp add: tom_met_jerry_def tom_met_jerry_spans_def py_slice_def adjust_def ascii_def)
  with h n show ?thesis by simp
qed

section \<open>The span annotator: no spans, no empty segments\<close>

text \<open>
  C4 (no spans): a non-empty text with an empty span sequence gives exactly one segment,
  the whole text without label; the empty text with an empty span sequence gives no
  segment.
\<close>

theorem annotate_no_spans:
  "(text \<noteq> [] \<longrightarrow> annotate text [] = [(text, None)]) \<and> annotate [] [] = []"
  by (simp add: annotate_def py_slice_from_def adjust_def)

theorem annotate_no_spans_witness:
  "hello_world \<noteq> [] \<and> annotate hello_world [] = [(hello_world, None)]"
proof -
  have h: "hello_world \<noteq> []"
    by (simp add: hello_world_def ascii_def)
  with annotate_no_spans [of hello_world] show ?thesis by simp
qed

lemma stitch_nonempty:
  assumes "0 \<le> c" "list_all (in_bounds text) es" "\<forall>seg \<in> set out. fst seg \<noteq> []"
  shows "(\<forall>seg \<in> set (snd (stitch text es c out)). fst seg \<noteq> []) \<and> 0 \<le> fst (stitch text es c out)"
  using assms
proof (induction es arbitrary: c out)
  case Nil
  then show ?case by simp
next
  case (Cons e es)
  have e: "0 \<le> start e" "start e < end' e" "end' e \<le> int (length text)"
    using Cons.prems(2) by (simp_all add: in_bounds_def)
  have ent: "py_slice text (start e) (end' e) \<noteq> []"
    using e by (rule py_slice_nonempty)
  have gap: "py_slice text c (start e) \<noteq> []" if "c < start e"
  proof (rule py_slice_nonempty)
    show "0 \<le> c" by (rule Cons.prems(1))
    show "c < start e" by (rule that)
    show "start e \<le> int (length text)" using e by simp
  qed
  define out' where "out' = (if start e > c then out @ [(py_slice text c (start e), None)] else out)
        @ [(py_slice text (start e) (end' e), Some (entity_group e))]"
  have o: "\<forall>seg \<in> set out'. fst seg \<noteq> []"
  proof (cases "c < start e")
    case True
    then show ?thesis using Cons.prems(3) ent gap by (simp add: out'_def)
  next
    case False
    then show ?thesis using Cons.prems(3) ent by (simp add: out'_def)
  qed
  have e0: "0 \<le> end' e" using e by simp
  have rest: "list_all (in_bounds text) es" using Cons.prems(2) by simp
  have ih: "(\<forall>seg \<in> set (snd (stitch text es (end' e) out')). fst seg \<noteq> [])
          \<and> 0 \<le> fst (stitch text es (end' e) out')"
    using e0 rest o by (rule Cons.IH)
  have eq: "stitch text (e # es) c out = stitch text es (end' e) out'"
    by (simp add: out'_def)
  show ?case unfolding eq by (rule ih)
qed

text \<open>
  C5 (no empty segment): for every non-empty text and every well-formed span sequence,
  no segment of the output has empty text.
\<close>

theorem annotate_no_empty_segment:
  assumes "text \<noteq> []" "well_formed text spans"
  shows "\<forall>seg \<in> set (annotate text spans). fst seg \<noteq> []"
proof -
  let ?c = "fst (stitch text spans 0 [])" and ?out = "snd (stitch text spans 0 [])"
  have b: "list_all (in_bounds text) spans"
    using assms(2) by (simp add: well_formed_def)
  have st: "(\<forall>seg \<in> set ?out. fst seg \<noteq> []) \<and> 0 \<le> ?c"
    using stitch_nonempty [of 0 "text" spans "[]"] b by simp
  show ?thesis
  proof (cases "?c < int (length text)")
    case True
    then have "nat ?c < length text"
      using st by linarith
    then have "py_slice_from text ?c \<noteq> []"
      using st True by (simp add: py_slice_from_in_range)
    then show ?thesis using st True by (simp add: annotate_alt)
  next
    case False
    then show ?thesis using st by (simp add: annotate_alt)
  qed
qed

theorem annotate_no_empty_segment_witness:
  "tom_met_jerry \<noteq> [] \<and> well_formed tom_met_jerry tom_met_jerry_spans \<and>
   (ascii '' met '', None) \<in> set (annotate tom_met_jerry tom_met_jerry_spans) \<and>
   fst (ascii '' met '', None :: pystr option) \<noteq> []"
proof -
  have t: "tom_met_jerry \<noteq> []"
    by (simp add: tom_met_jerry_def ascii_def)
  have h: "well_formed tom_met_jerry tom_met_jerry_spans"
    by (simp add: well_formed_def in_bounds_def tom_met_jerry_def tom_met_jerry_spans_def ascii_def)
  have m: "(ascii '' met '', None) \<in> set (annotate tom_met_jerry tom_met_jerry_spans)"
    by (simp add: tom_met_jerry_def tom_met_jerry_spans_def annotate_def py_slice_def
        py_slice_from_def adjust_def ascii_def)
  from annotate_no_empty_segment [OF t h] m
  have "fst (ascii '' met '', None :: pystr option) \<noteq> []" by blast
  with t h m show ?thesis by simp
qed

section \<open>Trimming\<close>

lemma strip_all_space:
  assumes "\<forall>c \<in> set s. isspace c"
  shows "strip s = []"
proof -
  have d: "dropWhile isspace s = []"
    using assms by (induction s) simp_all
  show ?thesis unfolding strip_def d by simp
qed

lemma strip_no_space: "\<forall>c \<in> set s. \<not> isspace c \<Longrightarrow> strip s = s"
proof (cases s rule: rev_cases)
  case Nil
  then show ?thesis by (simp add: strip_def)
next
  case (snoc ys y)
  assume a: "\<forall>c \<in> set s. \<not> isspace c"
  have 1: "dropWhile isspace s = s"
    using a by (cases s) simp_all
  have 2: "dropWhile isspace (rev s) = rev s"
    using a snoc by simp
  show ?thesis by (simp add: strip_def 1 2)
qed

lemma strip_trailing_space:
  assumes "s \<noteq> []" "\<forall>c \<in> set s. \<not> isspace c" "\<forall>c \<in> set sp. isspace c"
  shows "strip (s @ sp) = s"
proof -
  have 1: "dropWhile isspace (s @ sp) = s @ sp"
    using assms(1,2) by (cases s) simp_all
  have "dropWhile isspace (rev sp @ rev s) = dropWhile isspace (rev s)"
    by (rule dropWhile_append2) (simp add: assms(3))
  also have "\<dots> = rev s"
    using assms(1,2) by (cases s rule: rev_cases) simp_all
  finally have 2: "dropWhile isspace (rev (s @ sp)) = rev s" by simp
  show ?thesis by (simp only: strip_def 1 2 rev_rev_ident)
qed

lemma strip_Nil: "strip [] = []"
  by (simp add: strip_def)

lemma strip_sixty_spaces: "strip sixty_spaces = []"
  by (rule strip_all_space) (simp add: sixty_spaces_def isspace_def)

lemma strip_ten_letters: "strip ten_letters = ten_letters"
  by (rule strip_no_space) (simp add: ten_letters_def isspace_def)

lemma strip_sixty_letters: "strip sixty_letters = sixty_letters"
  by (rule strip_no_space) (simp add: sixty_letters_def isspace_def)

lemma strip_padded_text: "strip padded_text = replicate 45 97"
  unfolding padded_text_def
  by (rule strip_trailing_space) (simp_all add: isspace_def)

lemma stub_processor_loaded:
  "summarizer stub_processor = Some stub_summarizer" "ner_pipeline stub_processor = Some stub_ner"
  by (simp_all add: stub_processor_def)

lemma length_examples:
  "length sixty_spaces = 60" "length ten_letters = 10" "length sixty_letters = 60"
  "length padded_text = 55"
  by (simp_all add: sixty_spaces_def ten_letters_def sixty_letters_def padded_text_def)

lemma ten_letters_not_blank: "strip ten_letters \<noteq> []"
  by (simp add: strip_ten_letters) (simp add: ten_letters_def)

lemma padded_text_not_blank: "strip padded_text \<noteq> []"
  by (simp add: strip_padded_text)

section \<open>The validation gates\<close>

lemma messages_distinct: "msg_enter_text \<noteq> msg_input_too_short"
  by (simp add: msg_enter_text_def msg_input_too_short_def ascii_def)

lemma summarize_text_blank:
  "strip text = [] \<Longrightarrow> summarize_text (Some model) text max_len min_len = (Inr msg_enter_text, [])"
  by (simp add: summarize_text_def)

lemma summarize_text_short:
  "strip text \<noteq> [] \<Longrightarrow> length text < 50 \<Longrightarrow>
   summarize_text (Some model) text max_len min_len = (Inr msg_input_too_short, [])"
  by (auto simp add: summarize_text_def strip_Nil)

lemma summarize_text_invokes:
  "strip text \<noteq> [] \<Longrightarrow> 50 \<le> length text \<Longrightarrow>
   SummarizerCall text max_len min_len \<in> set (snd (summarize_text (Some model) text max_len min_len))"
  by (auto simp add: summarize_text_def strip_Nil split: sum.splits py_raised.splits)

lemma process_rejects:
  "summarizer self = Some summ \<Longrightarrow> ner_pipeline self = Some ner \<Longrightarrow>
   text = [] \<or> length (strip text) < 50 \<Longrightarrow>
   process self text max_len min_len = (Inr (msg_text_too_short, []), [])"
  by (auto simp add: process_def)

lemma process_try_invokes:
  "SummarizerCall text max_len min_len \<in> set (snd (process_try summ ner text max_len min_len))"
  by (simp add: process_try_def split: sum.splits)

lemma process_invokes:
  assumes "summarizer self = Some summ" "ner_pipeline self = Some ner" "50 \<le> length (strip text)"
  shows "SummarizerCall text max_len min_len \<in> set (snd (process self text max_len min_len))"
proof -
  have ne: "text \<noteq> []" using assms(3) by (auto simp add: strip_Nil)
  obtain r evs where pt: "process_try summ ner text max_len min_len = (r, evs)"
    by (cases "process_try summ ner text max_len min_len")
  have "SummarizerCall text max_len min_len \<in> set evs"
    using process_try_invokes [of "text" max_len min_len summ ner] pt by simp
  then show ?thesis
    using assms ne pt by (cases r) (simp_all add: process_def split: py_raised.splits)
qed

text \<open>
  C6, as claimed: every validation gate answers blank input and too-short input with two
  distinct advisories, blank first. The gate of \<open>TextProcessor.process\<close> (line 84) has
  one condition and one advisory: sixty spaces and ten letters both get
  ``Text too short''.
\<close>

theorem process_blank_counterexample:
  "process stub_processor sixty_spaces 130 30 = (Inr (msg_text_too_short, []), []) \<and>
   process stub_processor ten_letters 130 30 = (Inr (msg_text_too_short, []), [])"
proof
  have "length (strip sixty_spaces) < 50" by (simp add: strip_sixty_spaces)
  then have "sixty_spaces = [] \<or> length (strip sixty_spaces) < 50" by (rule disjI2)
  then show "process stub_processor sixty_spaces 130 30 = (Inr (msg_text_too_short, []), [])"
    by (rule process_rejects [OF stub_processor_loaded])
  have "length (strip ten_letters) < 50" by (simp add: strip_ten_letters length_examples)
  then have "ten_letters = [] \<or> length (strip ten_letters) < 50" by (rule disjI2)
  then show "process stub_processor ten_letters 130 30 = (Inr (msg_text_too_short, []), [])"
    by (rule process_rejects [OF stub_processor_loaded])
qed

text \<open>
  C6, amended: with the model loaded, \<open>summarize_text\<close> answers blank input (empty or
  only whitespace) with the ``Please enter some text'' advisory, whatever its length, and
  non-blank input shorter than 50 characters with the different ``Input text is too
  short'' advisory, in both cases with no event, hence without invoking the summarizer.
  With both models loaded, \<open>TextProcessor.process\<close> answers empty input and input whose
  trimmed length is below 50 with the single ``Text too short'' advisory, an empty
  segment list and no event.
\<close>

theorem validation_gate:
  "(strip text = [] \<longrightarrow>
      summarize_text (Some model) text max_len min_len = (Inr msg_enter_text, [])) \<and>
   (strip text \<noteq> [] \<and> length text < 50 \<longrightarrow>
      summarize_text (Some model) text max_len min_len = (Inr msg_input_too_short, [])) \<and>
   msg_enter_text \<noteq> msg_input_too_short \<and>
   (summarizer self = Some summ \<and> ner_pipeline self = Some ner \<and>
    (text = [] \<or> length (strip text) < 50) \<longrightarrow>
      process self text max_len min_len = (Inr (msg_text_too_short, []), []))"
proof (intro conjI impI)
  assume "strip text = []"
  then show "summarize_text (Some model) text max_len min_len = (Inr msg_enter_text, [])"
    by (rule summarize_text_blank)
next
  assume "strip text \<noteq> [] \<and> length text < 50"
  then show "summarize_text (Some model) text max_len min_len = (Inr msg_input_too_short, [])"
    by (simp add: summarize_text_short)
next
  show "msg_enter_text \<noteq> msg_input_too_short" by (rule messages_distinct)
next
  assume a: "summarizer self = Some summ \<and> ner_pipeline self = Some ner \<and>
    (text = [] \<or> length (strip text) < 50)"
  show "process self text max_len min_len = (Inr (msg_text_too_short, []), [])"
    by (rule process_rejects [of self summ ner]) (simp_all add: a)
qed

theorem validation_gate_witness:
  "strip sixty_spaces = [] \<and>
   summarize_text (Some stub_summarizer) sixty_spaces 130 30 = (Inr msg_enter_text, []) \<and>
   strip ten_letters \<noteq> [] \<and> length ten_letters < 50 \<and>
   summarize_text (Some stub_summarizer) ten_letters 130 30 = (Inr msg_input_too_short, []) \<and>
   summarizer stub_processor = Some stub_summarizer \<and>
   ner_pipeline stub_processor = Some stub_ner \<and>
   length (strip ten_letters) < 50 \<and>
   process stub_processor ten_letters 130 30 = (Inr (msg_text_too_short, []), [])"
proof -
  have b: "strip sixty_spaces = []" by (rule strip_sixty_spaces)
  have n: "strip ten_letters \<noteq> []" by (rule ten_letters_not_blank)
  have l: "length ten_letters < 50" by (simp add: length_examples)
  have s: "length (strip ten_letters) < 50" by (simp add: strip_ten_letters length_examples)
  note g1 = validation_gate [of sixty_spaces stub_summarizer 130 30 stub_processor stub_summarizer stub_ner]
  note g2 = validation_gate [of ten_letters stub_summarizer 130 30 stub_processor stub_summarizer stub_ner]
  have 1: "summarize_text (Some stub_summarizer) sixty_spaces 130 30 = (Inr msg_enter_text, [])"
    by (rule g1 [THEN conjunct1, THEN mp, OF b])
  have 2: "summarize_text (Some stub_summarizer) ten_letters 130 30 = (Inr msg_input_too_short, [])"
    by (rule g2 [THEN conjunct2, THEN conjunct1, THEN mp, OF conjI [OF n l]])
  have 3: "process stub_processor ten_letters 130 30 = (Inr (msg_text_too_short, []), [])"
    by (rule g2 [THEN conjunct2, THEN conjunct2, THEN conjunct2, THEN mp])
       (intro conjI disjI2 stub_processor_loaded s)
  show ?thesis
    by (intro conjI b 1 n l 2 stub_processor_loaded s 3)
qed

text \<open>
  C7, as claimed: every validation gate compares 50 with the length of the untrimmed
  input. The gate of \<open>TextProcessor.process\<close> rejects forty-five letters followed by
  ten spaces, an input of length 55.
\<close>

theorem process_trimmed_length_counterexample:
  "length padded_text = 55 \<and>
   process stub_processor padded_text 130 30 = (Inr (msg_text_too_short, []), [])"
proof
  show "length padded_text = 55" by (rule length_examples)
  have "length (strip padded_text) < 50" by (simp add: strip_padded_text)
  then have "padded_text = [] \<or> length (strip padded_text) < 50" by (rule disjI2)
  then show "process stub_processor padded_text 130 30 = (Inr (msg_text_too_short, []), [])"
    by (rule process_rejects [OF stub_processor_loaded])
qed

text \<open>
  C7, amended: \<open>summarize_text\<close> compares 50 with the length of the untrimmed input
  (a non-blank input is rejected as too short when that length is below 50 and passed to
  the summarizer otherwise); \<open>TextProcessor.process\<close> compares 50 with the length of
  the trimmed input (rejected below 50, passed to the summarizer otherwise).
\<close>

theorem length_check:
  "(strip text \<noteq> [] \<and> length text < 50 \<longrightarrow>
      summarize_text (Some model) text max_len min_len = (Inr msg_input_too_short, [])) \<and>
   (strip text \<noteq> [] \<and> 50 \<le> length text \<longrightarrow>
      SummarizerCall text max_len min_len
        \<in> set (snd (summarize_text (Some model) text max_len min_len))) \<and>
   (summarizer self = Some summ \<and> ner_pipeline self = Some ner \<and> length (strip text) < 50 \<longrightarrow>
      process self text max_len min_len = (Inr (msg_text_too_short, []), [])) \<and>
   (summarizer self = Some summ \<and> ner_pipeline self = Some ner \<and> 50 \<le> length (strip text) \<longrightarrow>
      SummarizerCall text max_len min_len \<in> set (snd (process self text max_len min_len)))"
proof (intro conjI impI)
  assume "strip text \<noteq> [] \<and> length text < 50"
  then show "summarize_text (Some model) text max_len min_len = (Inr msg_input_too_short, [])"
    by (simp add: summarize_text_short)
next
  assume "strip text \<noteq> [] \<and> 50 \<le> length text"
  then show "SummarizerCall text max_len min_len
        \<in> set (snd (summarize_text (Some model) text max_len min_len))"
    by (simp add: summarize_text_invokes)
next
  assume a: "summarizer self = Some summ \<and> ner_pipeline self = Some ner \<and> length (strip text) < 50"
  show "process self text max_len min_len = (Inr (msg_text_too_short, []), [])"
    by (rule process_rejects [of self summ ner]) (simp_all add: a)
next
  assume a: "summarizer self = Some summ \<and> ner_pipeline self = Some ner \<and> 50 \<le> length (strip text)"
  show "SummarizerCall text max_len min_len \<in> set (snd (process self text max_len min_len))"
    by (rule process_invokes [of self summ ner]) (simp_all add: a)
qed

theorem length_check_witness:
  "strip ten_letters \<noteq> [] \<and> length ten_letters < 50 \<and>
   summarize_text (Some stub_summarizer) ten_letters 130 30 = (Inr msg_input_too_short, []) \<and>
   strip padded_text \<noteq> [] \<and> 50 \<le> length padded_text \<and>
   SummarizerCall padded_text 130 30
     \<in> set (snd (summarize_text (Some stub_summarizer) padded_text 130 30)) \<and>
   summarizer stub_processor = Some stub_summarizer \<and>
   ner_pipeline stub_processor = Some stub_ner \<and>
   length (strip padded_text) < 50 \<and>
   process stub_processor padded_text 130 30 = (Inr (msg_text_too_short, []), []) \<and>
   50 \<le> length (strip sixty_letters) \<and>
   SummarizerCall sixty_letters 130 30 \<in> set (snd (process stub_processor sixty_letters 130 30))"
proof -
  have n: "strip ten_letters \<noteq> []" by (rule ten_letters_not_blank)
  have l: "length ten_letters < 50" by (simp add: length_examples)
  have pn: "strip padded_text \<noteq> []" by (rule padded_text_not_blank)
  have pl: "50 \<le> length padded_text" by (simp add: length_examples)
  have ps: "length (strip padded_text) < 50" by (simp add: strip_padded_text)
  have sl: "50 \<le> length (strip sixty_letters)" by (simp add: strip_sixty_letters length_examples)
  note g1 = length_check [of ten_letters stub_summarizer 130 30 stub_processor stub_summarizer stub_ner]
  note g2 = length_check [of padded_text stub_summarizer 130 30 stub_processor stub_summarizer stub_ner]
  note g3 = length_check [of sixty_letters stub_summarizer 130 30 stub_processor stub_summarizer stub_ner]
  have 1: "summarize_text (Some stub_summarizer) ten_letters 130 30 = (Inr msg_input_too_short, [])"
    by (rule g1 [THEN conjunct1, THEN mp, OF conjI [OF n l]])
  have 2: "SummarizerCall padded_text 130 30
     \<in> set (snd (summarize_text (Some stub_summarizer) padded_text 130 30))"
    by (rule g2 [THEN conjunct2, THEN conjunct1, THEN mp, OF conjI [OF pn pl]])
  have 3: "process stub_processor padded_text 130 30 = (Inr (msg_text_too_short, []), [])"
    by (rule g2 [THEN conjunct2, THEN conjunct2, THEN conjunct1, THEN mp])
       (intro conjI stub_processor_loaded ps)
  have 4: "SummarizerCall sixty_letters 130 30 \<in> set (snd (process stub_processor sixty_letters 130 30))"
    by (rule g3 [THEN conjunct2, THEN conjunct2, THEN conjunct2, THEN mp])
       (intro conjI stub_processor_loaded sl)
  show ?thesis
    by (intro conjI n l 1 pn pl 2 stub_processor_loaded ps 3 sl 4)
qed

section \<open>The single-model app: what a call ends with\<close>

lemma strip_nonempty_length: "50 \<le> length (strip text) \<Longrightarrow> text \<noteq> [] \<and> strip text \<noteq> []"
  by (auto simp add: strip_Nil)

lemma sixty_letters_not_blank: "strip sixty_letters \<noteq> []"
  by (simp add: strip_sixty_letters) (simp add: sixty_letters_def)

lemma summarize_text_unloaded:
  "summarize_text None text max_len min_len = (Inr msg_model_not_loaded, [])"
  by (simp add: summarize_text_def)

lemma summarize_text_accepts:
  assumes "strip text \<noteq> []" "50 \<le> length text"
  shows "fst (summarize_text (Some model) text max_len min_len) =
           (case summarize_try model text max_len min_len of
              Inl raised \<Rightarrow>
                (case raised of
                   Exception e \<Rightarrow> Inr (ascii ''An error occurred: '' @ exc_str e)
                 | _ \<Rightarrow> Inl raised)
            | Inr result \<Rightarrow> Inr result)"
proof -
  have "text \<noteq> []" using assms(1) by (auto simp add: strip_Nil)
  then show ?thesis
    using assms by (simp add: summarize_text_def split: sum.splits py_raised.splits)
qed

text \<open>
  C9, as claimed: \<open>summarize_text\<close> never lets an exception out, and any exception
  raised during inference becomes a message string. The handler at line 62 is
  \<open>except Exception\<close>: when the pipeline is interrupted from the keyboard, on a long
  enough text, the \<open>KeyboardInterrupt\<close> leaves the function and no string is returned.
\<close>

theorem keyboard_interrupt_counterexample:
  "fst (summarize_text (Some interrupted_summarizer) sixty_letters 130 30) = Inl KeyboardInterrupt"
proof -
  have "summarize_try interrupted_summarizer sixty_letters 130 30 = Inl KeyboardInterrupt"
    by (simp add: summarize_try_def interrupted_summarizer_def)
  moreover have "50 \<le> length sixty_letters" by (simp add: length_examples)
  ultimately show ?thesis
    using sixty_letters_not_blank by (simp add: summarize_text_accepts)
qed

text \<open>
  C9, amended: \<open>summarize_text\<close> returns a string, and lets no exception out, in each
  of these cases, which cover every call whose pipeline raises nothing outside
  \<open>Exception\<close>. Without a loaded model it returns the ``Model not loaded'' message; on
  blank input and on too-short input the two advisories; when the pipeline raises an
  instance \<open>e\<close> of \<open>Exception\<close>, the message ``An error occurred: '' followed by
  \<open>str(e)\<close>; when the pipeline returns an empty list, so that \<open>summary_list[0]\<close>
  raises, the same message with the text of that \<open>IndexError\<close>; otherwise the first
  summary. What the pipeline raises outside \<open>Exception\<close> (\<open>KeyboardInterrupt\<close>,
  \<open>SystemExit\<close>) is not caught and leaves the function.
\<close>

theorem summarize_text_returns_message:
  "fst (summarize_text None text max_len min_len) = Inr msg_model_not_loaded \<and>
   (strip text = [] \<longrightarrow>
      fst (summarize_text (Some model) text max_len min_len) = Inr msg_enter_text) \<and>
   (strip text \<noteq> [] \<and> length text < 50 \<longrightarrow>
      fst (summarize_text (Some model) text max_len min_len) = Inr msg_input_too_short) \<and>
   (strip text \<noteq> [] \<and> 50 \<le> length text \<and>
    model text max_len min_len = Inl (Exception e) \<longrightarrow>
      fst (summarize_text (Some model) text max_len min_len)
        = Inr (ascii ''An error occurred: '' @ exc_str e)) \<and>
   (strip text \<noteq> [] \<and> 50 \<le> length text \<and> model text max_len min_len = Inr [] \<longrightarrow>
      fst (summarize_text (Some model) text max_len min_len)
        = Inr (ascii ''An error occurred: list index out of range'')) \<and>
   (strip text \<noteq> [] \<and> 50 \<le> length text \<and> model text max_len min_len = Inr (s # rest) \<longrightarrow>
      fst (summarize_text (Some model) text max_len min_len) = Inr (summary_text s)) \<and>
   (strip text \<noteq> [] \<and> 50 \<le> length text \<and> model text max_len min_len = Inl raised \<and>
    \<not> is_Exception raised \<longrightarrow>
      fst (summarize_text (Some model) text max_len min_len) = Inl raised)"
proof (intro conjI impI)
  show "fst (summarize_text None text max_len min_len) = Inr msg_model_not_loaded"
    by (simp add: summarize_text_unloaded)
next
  assume "strip text = []"
  then show "fst (summarize_text (Some model) text max_len min_len) = Inr msg_enter_text"
    by (simp add: summarize_text_blank)
next
  assume "strip text \<noteq> [] \<and> length text < 50"
  then show "fst (summarize_text (Some model) text max_len min_len) = Inr msg_input_too_short"
    by (simp add: summarize_text_short)
next
  assume a: "strip text \<noteq> [] \<and> 50 \<le> length text \<and>
    model text max_len min_len = Inl (Exception e)"
  then have "summarize_try model text max_len min_len = Inl (Exception e)"
    by (simp add: summarize_try_def)
  then show "fst (summarize_text (Some model) text max_len min_len)
        = Inr (ascii ''An error occurred: '' @ exc_str e)"
    using a by (simp add: summarize_text_accepts)
next
  assume a: "strip text \<noteq> [] \<and> 50 \<le> length text \<and> model text max_len min_len = Inr []"
  then have "summarize_try model text max_len min_len = Inl (Exception IndexError)"
    by (simp add: summarize_try_def subscript0_def)
  then have "fst (summarize_text (Some model) text max_len min_len)
        = Inr (ascii ''An error occurred: '' @ exc_str IndexError)"
    using a by (simp add: summarize_text_accepts)
  then show "fst (summarize_text (Some model) text max_len min_len)
        = Inr (ascii ''An error occurred: list index out of range'')"
    by (simp add: IndexError_def ascii_def)
next
  assume a: "strip text \<noteq> [] \<and> 50 \<le> length text \<and> model text max_len min_len = Inr (s # rest)"
  then have "summarize_try model text max_len min_len = Inr (summary_text s)"
    by (simp add: summarize_try_def subscript0_def)
  then show "fst (summarize_text (Some model) text max_len min_len) = Inr (summary_text s)"
    using a by (simp add: summarize_text_accepts)
next
  assume a: "strip text \<noteq> [] \<and> 50 \<le> length text \<and> model text max_len min_len = Inl raised \<and>
    \<not> is_Exception raised"
  then have "summarize_try model text max_len min_len = Inl raised"
    by (simp add: summarize_try_def)
  then show "fst (summarize_text (Some model) text max_len min_len) = Inl raised"
    using a by (cases raised) (simp_all add: summarize_text_accepts)
qed

theorem summarize_text_returns_message_witness:
  "strip sixty_spaces = [] \<and>
   fst (summarize_text (Some stub_summarizer) sixty_spaces 130 30) = Inr msg_enter_text \<and>
   strip ten_letters \<noteq> [] \<and> length ten_letters < 50 \<and>
   fst (summarize_text (Some stub_summarizer) ten_letters 130 30) = Inr msg_input_too_short \<and>
   strip sixty_letters \<noteq> [] \<and> 50 \<le> length sixty_letters \<and>
   failing_summarizer sixty_letters 130 30
     = Inl (Exception (PyException (ascii ''out of memory''))) \<and>
   fst (summarize_text (Some failing_summarizer) sixty_letters 130 30)
     = Inr (ascii ''An error occurred: '' @ ascii ''out of memory'') \<and>
   empty_summarizer sixty_letters 130 30 = Inr [] \<and>
   fst (summarize_text (Some empty_summarizer) sixty_letters 130 30)
     = Inr (ascii ''An error occurred: list index out of range'') \<and>
   stub_summarizer sixty_letters 130 30 = Inr [\<lparr>summary_text = paris_is_big\<rparr>] \<and>
   fst (summarize_text (Some stub_summarizer) sixty_letters 130 30) = Inr paris_is_big \<and>
   interrupted_summarizer sixty_letters 130 30 = Inl KeyboardInterrupt \<and>
   is_Exception KeyboardInterrupt = False \<and>
   fst (summarize_text (Some interrupted_summarizer) sixty_letters 130 30)
     = Inl KeyboardInterrupt"
proof -
  have b: "strip sixty_spaces = []" by (rule strip_sixty_spaces)
  have n: "strip ten_letters \<noteq> []" by (rule ten_letters_not_blank)
  have l: "length ten_letters < 50" by (simp add: length_examples)
  have sn: "strip sixty_letters \<noteq> []" by (rule sixty_letters_not_blank)
  have sl: "50 \<le> length sixty_letters" by (simp add: length_examples)
  have f: "failing_summarizer sixty_letters 130 30
     = Inl (Exception (PyException (ascii ''out of memory'')))"
    by (simp add: failing_summarizer_def)
  have e: "empty_summarizer sixty_letters 130 30 = Inr []"
    by (simp add: empty_summarizer_def)
  have k: "stub_summarizer sixty_letters 130 30 = Inr [\<lparr>summary_text = paris_is_big\<rparr>]"
    by (simp add: stub_summarizer_def)
  have i: "interrupted_summarizer sixty_letters 130 30 = Inl KeyboardInterrupt"
    by (simp add: interrupted_summarizer_def)
  have ni: "\<not> is_Exception KeyboardInterrupt" by simp
  have ni': "is_Exception KeyboardInterrupt = False" by simp
  note g1 = summarize_text_returns_message [of sixty_spaces 130 30 stub_summarizer]
  note g2 = summarize_text_returns_message [of ten_letters 130 30 stub_summarizer]
  note g3 = summarize_text_returns_message
    [of sixty_letters 130 30 failing_summarizer "PyException (ascii ''out of memory'')"]
  note g4 = summarize_text_returns_message [of sixty_letters 130 30 empty_summarizer]
  note g5 = summarize_text_returns_message
    [of sixty_letters 130 30 stub_summarizer _ "\<lparr>summary_text = paris_is_big\<rparr>" "[]"]
  note g6 = summarize_text_returns_message
    [of sixty_letters 130 30 interrupted_summarizer _ _ _ KeyboardInterrupt]
  have 1: "fst (summarize_text (Some stub_summarizer) sixty_spaces 130 30) = Inr msg_enter_text"
    by (rule g1 [THEN conjunct2, THEN conjunct1, THEN mp, OF b])
  have 2: "fst (summarize_text (Some stub_summarizer) ten_letters 130 30) = Inr msg_input_too_short"
    by (rule g2 [THEN conjunct2, THEN conjunct2, THEN conjunct1, THEN mp, OF conjI [OF n l]])
  have "fst (summarize_text (Some failing_summarizer) sixty_letters 130 30)
     = Inr (ascii ''An error occurred: '' @ exc_str (PyException (ascii ''out of memory'')))"
    by (rule g3 [THEN conjunct2, THEN conjunct2, THEN conjunct2, THEN conjunct1, THEN mp,
          OF conjI [OF sn conjI [OF sl f]]])
  then have 3: "fst (summarize_text (Some failing_summarizer) sixty_letters 130 30)
     = Inr (ascii ''An error occurred: '' @ ascii ''out of memory'')"
    by simp
  have 4: "fst (summarize_text (Some empty_summarizer) sixty_letters 130 30)
     = Inr (ascii ''An error occurred: list index out of range'')"
    by (rule g4 [THEN conjunct2, THEN conjunct2, THEN conjunct2, THEN conjunct2, THEN conjunct1,
          THEN mp, OF conjI [OF sn conjI [OF sl e]]])
  have "fst (summarize_text (Some stub_summarizer) sixty_letters 130 30)
     = Inr (summary_text \<lparr>summary_text = paris_is_big\<rparr>)"
    by (rule g5 [THEN conjunct2, THEN conjunct2, THEN conjunct2, THEN conjunct2, THEN conjunct2,
          THEN conjunct1, THEN mp, OF conjI [OF sn conjI [OF sl k]]])
  then have 5: "fst (summarize_text (Some stub_summarizer) sixty_letters 130 30) = Inr paris_is_big"
    by simp
  have 6: "fst (summarize_text (Some interrupted_summarizer) sixty_letters 130 30)
     = Inl KeyboardInterrupt"
    by (rule g6 [THEN conjunct2, THEN conjunct2, THEN conjunct2, THEN conjunct2, THEN conjunct2,
          THEN conjunct2, THEN mp, OF conjI [OF sn conjI [OF sl conjI [OF i ni]]]])
  show ?thesis
    by (intro conjI b 1 n l 2 sn sl f 3 e 4 k 5 i ni' 6)
qed

section \<open>TextProcessor.process: failures carry no segments\<close>

lemma process_unloaded:
  "summarizer self = None \<or> ner_pipeline self = None \<Longrightarrow>
   process self text max_len min_len = (Inr (msg_models_not_initialized, []), [])"
  by (auto simp add: process_def split: option.splits)

lemma process_error:
  assumes "summarizer self = Some summ" "ner_pipeline self = Some ner" "50 \<le> length (strip text)"
    "fst (process_try summ ner text max_len min_len) = Inl (Exception e)"
  shows "process self text max_len min_len =
           (Inr (ascii ''Error during processing: '' @ exc_str e, []),
            snd (process_try summ ner text max_len min_len)
              @ [LogError (ascii ''Inference Error: '' @ exc_str e)])"
proof -
  have ne: "text \<noteq> []" using assms(3) by (simp add: strip_nonempty_length)
  obtain evs where "process_try summ ner text max_len min_len = (Inl (Exception e), evs)"
    using assms(4) by (cases "process_try summ ner text max_len min_len") simp
  then show ?thesis
    using assms(1-3) ne by (simp add: process_def)
qed

lemma process_ok:
  assumes "summarizer self = Some summ" "ner_pipeline self = Some ner" "50 \<le> length (strip text)"
    "fst (process_try summ ner text max_len min_len) = Inr result"
  shows "process self text max_len min_len =
           (Inr result, snd (process_try summ ner text max_len min_len))"
proof -
  have ne: "text \<noteq> []" using assms(3) by (simp add: strip_nonempty_length)
  obtain evs where "process_try summ ner text max_len min_len = (Inr result, evs)"
    using assms(4) by (cases "process_try summ ner text max_len min_len") simp
  then show ?thesis
    using assms(1-3) ne by (simp add: process_def)
qed

lemma process_try_ok:
  "summ text max_len min_len = Inr (s # rest) \<Longrightarrow> ner (summary_text s) = Inr ner_res \<Longrightarrow>
   process_try summ ner text max_len min_len =
     (Inr (summary_text s, annotate (summary_text s) ner_res),
      [SummarizerCall text max_len min_len, NerCall (summary_text s)])"
  by (simp add: process_try_def subscript0_def)

text \<open>
  C10: whenever \<open>TextProcessor.process\<close> answers with a warning or an error message
  (a model is missing; the input is empty or too short after trimming; the \<open>try\<close>
  block ends with an exception \<open>e\<close> that the handler catches, whichever call raised
  it), the segment list of the returned pair is empty.
\<close>

theorem process_failure_no_segments:
  "(summarizer self = None \<or> ner_pipeline self = None \<longrightarrow>
      fst (process self text max_len min_len) = Inr (msg_models_not_initialized, [])) \<and>
   (summarizer self = Some summ \<and> ner_pipeline self = Some ner \<and>
    (text = [] \<or> length (strip text) < 50) \<longrightarrow>
      fst (process self text max_len min_len) = Inr (msg_text_too_short, [])) \<and>
   (summarizer self = Some summ \<and> ner_pipeline self = Some ner \<and> 50 \<le> length (strip text) \<and>
    fst (process_try summ ner text max_len min_len) = Inl (Exception e) \<longrightarrow>
      fst (process self text max_len min_len)
        = Inr (ascii ''Error during processing: '' @ exc_str e, []))"
proof (intro conjI impI)
  assume "summarizer self = None \<or> ner_pipeline self = None"
  then show "fst (process self text max_len min_len) = Inr (msg_models_not_initialized, [])"
    by (simp add: process_unloaded)
next
  assume a: "summarizer self = Some summ \<and> ner_pipeline self = Some ner \<and>
    (text = [] \<or> length (strip text) < 50)"
  have "process self text max_len min_len = (Inr (msg_text_too_short, []), [])"
    by (rule process_rejects [of self summ ner]) (simp_all add: a)
  then show "fst (process self text max_len min_len) = Inr (msg_text_too_short, [])"
    by simp
next
  assume a: "summarizer self = Some summ \<and> ner_pipeline self = Some ner \<and>
    50 \<le> length (strip text) \<and>
    fst (process_try summ ner text max_len min_len) = Inl (Exception e)"
  have "process self text max_len min_len =
           (Inr (ascii ''Error during processing: '' @ exc_str e, []),
            snd (process_try summ ner text max_len min_len)
              @ [LogError (ascii ''Inference Error: '' @ exc_str e)])"
    by (rule process_error) (simp_all add: a)
  then show "fst (process self text max_len min_len)
        = Inr (ascii ''Error during processing: '' @ exc_str e, [])"
    by simp
qed

theorem process_failure_no_segments_witness:
  "summarizer unloaded_processor = None \<and>
   fst (process unloaded_processor sixty_letters 130 30) = Inr (msg_models_not_initialized, []) \<and>
   summarizer stub_processor = Some stub_summarizer \<and>
   ner_pipeline stub_processor = Some stub_ner \<and>
   length (strip ten_letters) < 50 \<and>
   fst (process stub_processor ten_letters 130 30) = Inr (msg_text_too_short, []) \<and>
   summarizer failing_processor = Some failing_summarizer \<and>
   ner_pipeline failing_processor = Some stub_ner \<and>
   50 \<le> length (strip sixty_letters) \<and>
   fst (process_try failing_summarizer stub_ner sixty_letters 130 30)
     = Inl (Exception (PyException (ascii ''out of memory''))) \<and>
   fst (process failing_processor sixty_letters 130 30)
     = Inr (ascii ''Error during processing: '' @ ascii ''out of memory'', [])"
proof -
  have u: "summarizer unloaded_processor = None" by (simp add: unloaded_processor_def)
  have s: "length (strip ten_letters) < 50" by (simp add: strip_ten_letters length_examples)
  have fl: "summarizer failing_processor = Some failing_summarizer"
    "ner_pipeline failing_processor = Some stub_ner"
    by (simp_all add: failing_processor_def)
  have sl: "50 \<le> length (strip sixty_letters)" by (simp add: strip_sixty_letters length_examples)
  have t: "fst (process_try failing_summarizer stub_ner sixty_letters 130 30)
     = Inl (Exception (PyException (ascii ''out of memory'')))"
    by (simp add: process_try_def failing_summarizer_def)
  note g1 = process_failure_no_segments [of unloaded_processor sixty_letters 130 30]
  note g2 = process_failure_no_segments
    [of stub_processor ten_letters 130 30 stub_summarizer stub_ner]
  note g3 = process_failure_no_segments
    [of failing_processor sixty_letters 130 30 failing_summarizer stub_ner
      "PyException (ascii ''out of memory'')"]
  have 1: "fst (process unloaded_processor sixty_letters 130 30)
     = Inr (msg_models_not_initialized, [])"
    by (rule g1 [THEN conjunct1, THEN mp, OF disjI1 [OF u]])
  have 2: "fst (process stub_processor ten_letters 130 30) = Inr (msg_text_too_short, [])"
    by (rule g2 [THEN conjunct2, THEN conjunct1, THEN mp])
       (intro conjI disjI2 stub_processor_loaded s)
  have "fst (process failing_processor sixty_letters 130 30)
     = Inr (ascii ''Error during processing: '' @ exc_str (PyException (ascii ''out of memory'')), [])"
    by (rule g3 [THEN conjunct2, THEN conjunct2, THEN mp]) (intro conjI fl sl t)
  then have 3: "fst (process failing_processor sixty_letters 130 30)
     = Inr (ascii ''Error during processing: '' @ ascii ''out of memory'', [])"
    by simp
  show ?thesis
    by (intro conjI u 1 stub_processor_loaded s 2 fl sl t 3)
qed

section \<open>The stitching block on the state of the call\<close>

lemma fold_stitch_body:
  "fold stitch_body es s =
     s\<lparr>v_cursor := fst (stitch (v_summary_text s) es (v_cursor s) (v_formatted_output s)),
       v_formatted_output := snd (stitch (v_summary_text s) es (v_cursor s) (v_formatted_output s))\<rparr>"
proof (induction es arbitrary: s)
  case Nil
  show ?case by simp
next
  case (Cons e es)
  show ?case
    by (simp add: Cons.IH) (simp add: stitch_body_def Let_def)
qed

lemma stitch_block_eq:
  "stitch_block s =
     s\<lparr>v_cursor := fst (stitch (v_summary_text s) (v_ner_res s) 0 []),
       v_formatted_output := annotate (v_summary_text s) (v_ner_res s)\<rparr>"
  by (simp add: stitch_block_def fold_stitch_body stitch_init_def stitch_tail_def annotate_alt)

lemma process_try_stitch_block:
  assumes "summ text max_len min_len = Inr (s # rest)" "ner (summary_text s) = Inr ner_res"
    "v_summary_text st = summary_text s" "v_ner_res st = ner_res"
  shows "fst (process_try summ ner text max_len min_len)
           = Inr (summary_text s, v_formatted_output (stitch_block st))"
  using assms by (simp add: process_try_ok stitch_block_eq)

text \<open>
  C8 (purity): the stitching block is deterministic in the summary text and the spans,
  reads nothing else and changes nothing else. Started in any two states of the call
  that hold the same summary text and the same spans, whatever their object \<open>self\<close>,
  log, arguments and previous values of the local variables, it leaves the same segment
  list, which is \<open>annotate\<close> of that text and those spans; and the state it leaves
  differs from the one it started in by the two local variables \<open>cursor\<close> and
  \<open>formatted_output\<close> only.
\<close>

theorem annotate_pure:
  assumes "v_summary_text s1 = v_summary_text s2" and "v_ner_res s1 = v_ner_res s2"
  shows "v_formatted_output (stitch_block s1) = v_formatted_output (stitch_block s2) \<and>
         v_formatted_output (stitch_block s1) = annotate (v_summary_text s1) (v_ner_res s1) \<and>
         stitch_block s1 =
           s1\<lparr>v_cursor := v_cursor (stitch_block s1),
              v_formatted_output := v_formatted_output (stitch_block s1)\<rparr>"
proof (intro conjI)
  show "v_formatted_output (stitch_block s1) = v_formatted_output (stitch_block s2)"
    using assms by (simp add: stitch_block_eq)
  show "v_formatted_output (stitch_block s1) = annotate (v_summary_text s1) (v_ner_res s1)"
    by (simp add: stitch_block_eq)
  show "stitch_block s1 =
           s1\<lparr>v_cursor := v_cursor (stitch_block s1),
              v_formatted_output := v_formatted_output (stitch_block s1)\<rparr>"
    by (simp add: stitch_block_eq)
qed

theorem annotate_pure_witness:
  "v_summary_text state_a = v_summary_text state_b \<and>
   v_ner_res state_a = v_ner_res state_b \<and>
   v_formatted_output (stitch_block state_a) = v_formatted_output (stitch_block state_b) \<and>
   v_formatted_output (stitch_block state_a)
     = [(ascii ''Paris'', Some (ascii ''LOC'')), (ascii '' is big'', None)] \<and>
   v_self (stitch_block state_b) = other_processor \<and>
   v_log (stitch_block state_b) = [SummarizerCall seventy_letters 100 20, NerCall paris_is_big] \<and>
   v_text (stitch_block state_b) = seventy_letters"
proof -
  have h1: "v_summary_text state_a = v_summary_text state_b"
    by (simp add: state_a_def state_b_def)
  have h2: "v_ner_res state_a = v_ner_res state_b"
    by (simp add: state_a_def state_b_def)
  note p = annotate_pure [OF h1 h2]
  note q = annotate_pure [OF h1 [symmetric] h2 [symmetric]]
  have 1: "v_formatted_output (stitch_block state_a) = v_formatted_output (stitch_block state_b)"
    by (rule p [THEN conjunct1])
  have "v_formatted_output (stitch_block state_a)
          = annotate (v_summary_text state_a) (v_ner_res state_a)"
    by (rule p [THEN conjunct2, THEN conjunct1])
  also have "\<dots> = annotate paris_is_big paris_spans"
    by (simp add: state_a_def)
  also have "\<dots> = [(ascii ''Paris'', Some (ascii ''LOC'')), (ascii '' is big'', None)]"
    by (simp add: paris_is_big_def paris_spans_def annotate_def py_slice_def py_slice_from_def
        adjust_def ascii_def)
  finally have 2: "v_formatted_output (stitch_block state_a)
     = [(ascii ''Paris'', Some (ascii ''LOC'')), (ascii '' is big'', None)]" .
  have f: "stitch_block state_b =
           state_b\<lparr>v_cursor := v_cursor (stitch_block state_b),
              v_formatted_output := v_formatted_output (stitch_block state_b)\<rparr>"
    by (rule q [THEN conjunct2, THEN conjunct2])
  have 3: "v_self (stitch_block state_b) = other_processor"
    by (subst f) (simp add: state_b_def)
  have 4: "v_log (stitch_block state_b) = [SummarizerCall seventy_letters 100 20, NerCall paris_is_big]"
    by (subst f) (simp add: state_b_def)
  have 5: "v_text (stitch_block state_b) = seventy_letters"
    by (subst f) (simp add: state_b_def)
  show ?thesis
    by (intro conjI h1 h2 1 2 3 4 5)
qed

end
